theory Spec2Isabelle
  imports Complex_Main "HOL-Library.Sublist" "HOL-Library.Char_ord" "HOL-Library.List_Lexorder"
begin

section \<open>Data model\<close>

text \<open>
  The dashboard of \<^verbatim>\<open>src/client/src/App.jsx\<close> holds the rows that the server sends
  as JSON. A row is a JavaScript object; the pipeline reads nine of its properties.
\<close>

text \<open>
  Modelled from the spec: the schema of a row (the module \<^verbatim>\<open>models/Data\<close> that the
  route requires) is not among the sources. By the specification the six facets are
  strings and the three scores are numbers, each possibly absent. A property that is
  missing (\<^verbatim>\<open>undefined\<close>) or \<^verbatim>\<open>null\<close> is \<open>None\<close>: every test the code makes
  (\<^verbatim>\<open>item.topic && ...\<close>, \<^verbatim>\<open>filter(Boolean)\<close>, \<^verbatim>\<open>item.intensity || 0\<close>,
  \<^verbatim>\<open>!== null && !== undefined\<close>) treats the two alike. A score is a finite number (JSON
  has no other): the double that \<^verbatim>\<open>JSON.parse\<close> made of it, held as the rational
  number it is.
\<close>

record item =
  topic :: "string option"
  sector :: "string option"
  region :: "string option"
  pestle :: "string option"
  source :: "string option"
  country :: "string option"
  intensity :: "rat option"
  likelihood :: "rat option"
  relevance :: "rat option"

text \<open>
  The state \<^verbatim>\<open>filters\<close> of the component: one string per facet, \<^verbatim>\<open>''\<close> at the start
  and whenever the "All ..." option is chosen. Its fields carry the prefix \<open>sel_\<close>
  because a record cannot share field names with \<open>item\<close>.
\<close>

record filters =
  sel_topic :: string
  sel_sector :: string
  sel_region :: string
  sel_pestle :: string
  sel_source :: string
  sel_country :: string

text \<open>JavaScript truthiness of a string-valued property: present and not empty.\<close>

definition truthy :: "string option \<Rightarrow> bool" where
  "truthy v = (case v of None \<Rightarrow> False | Some s \<Rightarrow> s \<noteq> [])"

section \<open>Filter evaluator\<close>

text \<open>
  The callback of \<^verbatim>\<open>data.filter\<close> (App.jsx, lines 139-148). Each line has the shape
  \<^verbatim>\<open>!filters.topic || (item.topic && item.topic === filters.topic)\<close>; \<^verbatim>\<open>filter\<close> keeps
  a row when the returned value is truthy.
\<close>

definition matches :: "filters \<Rightarrow> item \<Rightarrow> bool" where
  "matches f it =
    (let topicMatch = (\<not> truthy (Some (sel_topic f)) \<or> (truthy (topic it) \<and> topic it = Some (sel_topic f)));
         sectorMatch = (\<not> truthy (Some (sel_sector f)) \<or> (truthy (sector it) \<and> sector it = Some (sel_sector f)));
         regionMatch = (\<not> truthy (Some (sel_region f)) \<or> (truthy (region it) \<and> region it = Some (sel_region f)));
         pestleMatch = (\<not> truthy (Some (sel_pestle f)) \<or> (truthy (pestle it) \<and> pestle it = Some (sel_pestle f)));
         sourceMatch = (\<not> truthy (Some (sel_source f)) \<or> (truthy (source it) \<and> source it = Some (sel_source f)));
         countryMatch = (\<not> truthy (Some (sel_country f)) \<or> (truthy (country it) \<and> country it = Some (sel_country f)))
     in topicMatch \<and> sectorMatch \<and> regionMatch \<and> pestleMatch \<and> sourceMatch \<and> countryMatch)"

text \<open>\<^verbatim>\<open>filteredData\<close> (App.jsx, lines 136-149), with its early return on an empty array.\<close>

definition filteredData :: "item list \<Rightarrow> filters \<Rightarrow> item list" where
  "filteredData data f = (if length data = 0 then [] else filter (matches f) data)"

section \<open>JavaScript numbers as property keys\<close>

text \<open>
  \<^verbatim>\<open>Math.round\<close> returns the nearest integer and, of two equally near ones, the
  larger: \<^verbatim>\<open>Math.round(2.5)\<close> is 3 and \<^verbatim>\<open>Math.round(-2.5)\<close> is -2.
\<close>

definition math_round :: "rat \<Rightarrow> int" where
  "math_round x = \<lfloor>x + 1 / 2\<rfloor>"

definition digit_char :: "nat \<Rightarrow> char" where
  "digit_char d = ''0123456789'' ! (d mod 10)"

definition is_digit :: "char \<Rightarrow> bool" where
  "is_digit c = (c \<in> set ''0123456789'')"

definition digit_val :: "char \<Rightarrow> nat" where
  "digit_val c = (case map_of (zip ''0123456789'' [0, 1, 2, 3, 4, 5, 6, 7, 8, 9]) c of
                    None \<Rightarrow> 0 | Some d \<Rightarrow> d)"

fun digits :: "nat \<Rightarrow> string" where
  "digits n = (if n < 10 then [digit_char n] else digits (n div 10) @ [digit_char n])"

definition parse_nat :: "string \<Rightarrow> nat" where
  "parse_nat s = foldl (\<lambda>a c. 10 * a + digit_val c) 0 s"

text \<open>
  A JavaScript number is a double: a finite value, an infinity or \<^verbatim>\<open>NaN\<close>. A finite
  double is held as the rational number it is. The two zeros are one value here: no
  operation of the pipeline tells them apart (\<^verbatim>\<open>x || 0\<close> turns both into 0, and
  \<^verbatim>\<open>toFixed\<close> and the property key print both as 0).
\<close>

datatype number = Finite rat | Infinity | NegInfinity | NaN

text \<open>
  Rounding a rational to the nearest double, ties to the even significand, as every
  arithmetic operation of the language does with its exact result. With \<open>e\<close> the
  binary exponent of the magnitude (\<open>2^e \<le> |x| < 2^(e + 1)\<close>), the doubles near it
  are the multiples of \<open>2^(e - 52)\<close>, or of \<open>2^(-1074)\<close> in the subnormal range; a
  result that reaches \<open>2^1024\<close> is an infinity.
\<close>

fun bit_length :: "nat \<Rightarrow> nat" where
  "bit_length n = (if n = 0 then 0 else Suc (bit_length (n div 2)))"

definition binary_exponent :: "rat \<Rightarrow> int" where
  "binary_exponent x =
    (if 1 \<le> x then int (bit_length (nat \<lfloor>x\<rfloor>)) - 1
     else - int (bit_length (nat (\<lceil>1 / x\<rceil> - 1))))"

definition pow2 :: "int \<Rightarrow> rat" where
  "pow2 t = (if 0 \<le> t then 2 ^ nat t else 1 / 2 ^ nat (- t))"

definition nearest_even :: "rat \<Rightarrow> int" where
  "nearest_even z =
    (let f = \<lfloor>z\<rfloor>; r = z - of_int f
     in if r < 1 / 2 then f else if 1 / 2 < r then f + 1 else if even f then f else f + 1)"

definition to_double :: "rat \<Rightarrow> number" where
  "to_double x =
    (if x = 0 then Finite 0
     else
       (let t = max (binary_exponent \<bar>x\<bar>) (- 1022) - 52;
            y = of_int (nearest_even (\<bar>x\<bar> / pow2 t)) * pow2 t
        in if 2 ^ 1024 \<le> y then (if x < 0 then NegInfinity else Infinity)
           else Finite (if x < 0 then - y else y)))"

text \<open>
  \<^verbatim>\<open>acc[intensity]\<close> turns the number into a property key with Number::toString. An
  integer below \<open>10^21\<close> in magnitude is written in plain decimal digits. From \<open>10^21\<close>
  on the key is in exponent notation, as in \<^verbatim>\<open>"1e+21"\<close> and \<^verbatim>\<open>"1.5e+21"\<close>, with the
  fewest significant digits that read back as the same double: for each number \<open>k\<close> of
  digits from 1 on, the two decimals of \<open>k\<close> digits that enclose the value are tried,
  and of two that both read back the nearer one is taken (the even one when equally
  near). Seventeen digits always suffice.
\<close>

definition same_double :: "nat \<Rightarrow> nat \<Rightarrow> bool" where
  "same_double c m = (to_double (of_nat c) = to_double (of_nat m))"

definition nearest_with :: "nat \<Rightarrow> nat \<Rightarrow> nat option" where
  "nearest_with m k =
    (let scale = 10 ^ (length (digits m) - k);
         lo = (m div scale) * scale;
         hi = lo + scale
     in if same_double lo m \<and> same_double hi m
        then Some (if m - lo < hi - m then lo
                   else if hi - m < m - lo then hi
                   else if even (m div scale) then lo else hi)
        else if same_double lo m then Some lo
        else if same_double hi m then Some hi
        else None)"

fun shortest_from :: "nat \<Rightarrow> nat list \<Rightarrow> nat" where
  "shortest_from m [] = m"
| "shortest_from m (k # ks) =
     (case nearest_with m k of Some c \<Rightarrow> c | None \<Rightarrow> shortest_from m ks)"

definition shortest :: "nat \<Rightarrow> nat" where
  "shortest m = shortest_from m [1, 2, 3, 4, 5, 6, 7, 8, 9, 10, 11, 12, 13, 14, 15, 16, 17]"

definition exponent_form :: "nat \<Rightarrow> string" where
  "exponent_form c =
    (case rev (dropWhile (\<lambda>ch. ch = CHR ''0'') (rev (digits c))) of
       [] \<Rightarrow> []
     | d # ds \<Rightarrow>
         d # (if ds = [] then [] else CHR ''.'' # ds) @ ''e+'' @ digits (length (digits c) - 1))"

definition unsigned_to_string :: "nat \<Rightarrow> string" where
  "unsigned_to_string m = (if m < 10 ^ 21 then digits m else exponent_form (shortest m))"

definition number_to_string :: "int \<Rightarrow> string" where
  "number_to_string n =
    (if n < 0 then CHR ''-'' # unsigned_to_string (nat (- n)) else unsigned_to_string (nat n))"

text \<open>
  \<^verbatim>\<open>parseInt\<close> without a radix: an optional sign, then the longest run of decimal
  digits; \<open>None\<close> is \<^verbatim>\<open>NaN\<close>, the result when there is no digit. Everything after the
  digits is ignored, so \<^verbatim>\<open>parseInt("1e+21")\<close> is 1. Its two other steps, skipping
  leading white space and reading a \<^verbatim>\<open>0x\<close> prefix as hexadecimal, never apply to a
  key that Number::toString made and are left out.
\<close>

definition parseInt :: "string \<Rightarrow> int option" where
  "parseInt s =
    (let (neg, t) = (case s of
                       [] \<Rightarrow> (False, s)
                     | c # r \<Rightarrow> if c = CHR ''-'' then (True, r)
                                else if c = CHR ''+'' then (False, r) else (False, s));
         ds = takeWhile is_digit t
     in if ds = [] then None
        else Some (if neg then - int (parse_nat ds) else int (parse_nat ds)))"

section \<open>Plain objects used as counters\<close>

text \<open>
  Each reduction of \<^verbatim>\<open>aggregatedData\<close> counts into an object literal \<^verbatim>\<open>{}\<close> with
  \<^verbatim>\<open>acc[k] = (acc[k] || 0) + 1\<close>. The object is the list of its own properties in the
  order of their creation. A property holds a count or, in one case, a string: for a
  key that names a member of \<^verbatim>\<open>Object.prototype\<close> the read \<^verbatim>\<open>acc[k]\<close> finds the
  inherited member, which is truthy, and \<^verbatim>\<open>+ 1\<close> concatenates: the result is text such
  as \<^verbatim>\<open>"function Object() { [native code] }1"\<close>. \<open>Text\<close> stands for any such string;
  its characters play no part.
\<close>

datatype cell = Count nat | Text

type_synonym object = "(string \<times> cell) list"

definition inherited :: "string list" where
  "inherited = [''constructor'', ''hasOwnProperty'', ''isPrototypeOf'', ''propertyIsEnumerable'',
                ''toLocaleString'', ''toString'', ''valueOf'', ''__proto__'',
                ''__defineGetter__'', ''__defineSetter__'', ''__lookupGetter__'',
                ''__lookupSetter__'']"

text \<open>The value of \<^verbatim>\<open>(acc[k] || 0) + 1\<close>.\<close>

definition plus_one :: "object \<Rightarrow> string \<Rightarrow> cell" where
  "plus_one acc k =
    (case map_of acc k of
       Some (Count n) \<Rightarrow> Count (n + 1)
     | Some Text \<Rightarrow> Text
     | None \<Rightarrow> if k \<in> set inherited then Text else Count 1)"

text \<open>
  The assignment \<^verbatim>\<open>acc[k] = v\<close> of a number or a string: it updates the own property
  or creates it after the others. Under the key \<^verbatim>\<open>__proto__\<close> it calls the inherited
  setter, which ignores a value that is neither an object nor null.
\<close>

definition assign :: "object \<Rightarrow> string \<Rightarrow> cell \<Rightarrow> object" where
  "assign acc k v =
    (if k = ''__proto__'' then acc
     else if k \<in> fst ` set acc then map (\<lambda>(k', v'). if k' = k then (k', v) else (k', v')) acc
     else acc @ [(k, v)])"

definition bump :: "object \<Rightarrow> string \<Rightarrow> object" where
  "bump acc k = assign acc k (plus_one acc k)"

text \<open>
  \<^verbatim>\<open>Object.entries\<close> lists the own properties whose keys are array indices (the
  decimal numerals of the integers from 0 to \<open>2^32 - 2\<close>, without leading zeros) first,
  in ascending numeric order, and then all other keys in the order of their creation.
\<close>

definition array_index :: "string \<Rightarrow> nat option" where
  "array_index k =
    (if k \<noteq> [] \<and> list_all is_digit k \<and> (k = ''0'' \<or> take 1 k \<noteq> ''0'') \<and> parse_nat k < 2 ^ 32 - 1
     then Some (parse_nat k) else None)"

definition entries :: "object \<Rightarrow> (string \<times> cell) list" where
  "entries acc =
     sort_key (\<lambda>(k, v). case array_index k of None \<Rightarrow> 0 | Some i \<Rightarrow> i)
        (filter (\<lambda>(k, v). array_index k \<noteq> None) acc)
     @ filter (\<lambda>(k, v). array_index k = None) acc"

section \<open>Sorting with a comparator\<close>

text \<open>
  \<^verbatim>\<open>Array.prototype.sort\<close> is stable. With a comparator that orders the elements
  consistently its result is determined, and the insertion sort below computes it: an
  element goes before the first element it does not compare greater than. A comparator
  result of \<^verbatim>\<open>NaN\<close> counts as 0; the comparators below return 0 in its place. (Where
  a comparator is not consistent the language leaves the order to the engine; the
  insertion sort is then one admissible outcome.)
\<close>

fun insert_by :: "('a \<Rightarrow> 'a \<Rightarrow> int) \<Rightarrow> 'a \<Rightarrow> 'a list \<Rightarrow> 'a list" where
  "insert_by cmp x [] = [x]"
| "insert_by cmp x (y # ys) = (if cmp x y \<le> 0 then x # y # ys else y # insert_by cmp x ys)"

definition js_sort :: "('a \<Rightarrow> 'a \<Rightarrow> int) \<Rightarrow> 'a list \<Rightarrow> 'a list" where
  "js_sort cmp xs = foldr (insert_by cmp) xs []"

section \<open>Aggregation pipeline\<close>

text \<open>
  \<^verbatim>\<open>aggregatedData\<close> (App.jsx, lines 152-195). The histogram object: rows whose
  intensity is neither null nor undefined are counted under the key of the rounded
  intensity.
\<close>

definition byIntensity_object :: "item list \<Rightarrow> object" where
  "byIntensity_object xs =
     foldl (\<lambda>acc it. case intensity it of
                        None \<Rightarrow> acc
                      | Some x \<Rightarrow> bump acc (number_to_string (math_round x))) [] xs"

text \<open>
  The region and topic distributions are the same code over two fields: rows with a
  truthy field are counted under it, the entries are sorted by descending count with
  the comparator \<^verbatim>\<open>b.value - a.value\<close> (\<^verbatim>\<open>NaN\<close> when either is a string) and cut to
  the first ten.
\<close>

definition count_object :: "(item \<Rightarrow> string option) \<Rightarrow> item list \<Rightarrow> object" where
  "count_object fld xs =
     foldl (\<lambda>acc it. case fld it of
                        None \<Rightarrow> acc
                      | Some k \<Rightarrow> if k \<noteq> [] then bump acc k else acc) [] xs"

definition descending :: "string \<times> cell \<Rightarrow> string \<times> cell \<Rightarrow> int" where
  "descending a b = (case (snd a, snd b) of
                       (Count m, Count n) \<Rightarrow> int n - int m
                     | _ \<Rightarrow> 0)"

definition top10 :: "(item \<Rightarrow> string option) \<Rightarrow> item list \<Rightarrow> (string \<times> cell) list" where
  "top10 fld xs = take 10 (js_sort descending (entries (count_object fld xs)))"

definition ascending :: "int option \<times> cell \<Rightarrow> int option \<times> cell \<Rightarrow> int" where
  "ascending a b = (case (fst a, fst b) of
                      (Some m, Some n) \<Rightarrow> m - n
                    | _ \<Rightarrow> 0)"

text \<open>
  The three derived datasets. An entry is a pair: (intensity, count) in \<open>byIntensity\<close>,
  (name, value) in \<open>byRegion\<close> and (topic, count) in \<open>byTopic\<close>.
\<close>

record aggregated =
  byIntensity :: "(int option \<times> cell) list"
  byRegion :: "(string \<times> cell) list"
  byTopic :: "(string \<times> cell) list"

definition aggregatedData :: "item list \<Rightarrow> aggregated" where
  "aggregatedData xs =
    (let byRegion = top10 region xs;
         byTopic = top10 topic xs
     in \<lparr>byIntensity = js_sort ascending
                          (map (\<lambda>(k, count). (parseInt k, count)) (entries (byIntensity_object xs))),
         byRegion = (if length byRegion \<noteq> 0 then byRegion else [(''No Data'', Count 0)]),
         byTopic = (if length byTopic \<noteq> 0 then byTopic else [(''No Data'', Count 0)])\<rparr>)"

section \<open>Summary statistics\<close>

text \<open>
  The sum \<^verbatim>\<open>acc + v\<close> of two numbers: the exact sum of two finite values, rounded to
  the nearest double; \<^verbatim>\<open>NaN\<close> for the two opposite infinities.
\<close>

fun js_add :: "number \<Rightarrow> number \<Rightarrow> number" where
  "js_add (Finite x) (Finite y) = to_double (x + y)"
| "js_add NaN b = NaN"
| "js_add a NaN = NaN"
| "js_add Infinity NegInfinity = NaN"
| "js_add NegInfinity Infinity = NaN"
| "js_add Infinity b = Infinity"
| "js_add a Infinity = Infinity"
| "js_add NegInfinity b = NegInfinity"
| "js_add a NegInfinity = NegInfinity"

text \<open>
  The quotient \<^verbatim>\<open>acc / filteredData.length\<close> of a number by the length of an array (a
  non-negative integer, exact as a double): the exact quotient rounded to the nearest
  double; for the length 0, \<^verbatim>\<open>NaN\<close> when the dividend is 0 and an infinity otherwise.
\<close>

definition js_divide :: "number \<Rightarrow> nat \<Rightarrow> number" where
  "js_divide a n =
    (case a of
       NaN \<Rightarrow> NaN
     | Infinity \<Rightarrow> Infinity
     | NegInfinity \<Rightarrow> NegInfinity
     | Finite x \<Rightarrow>
         if n = 0 then (if x = 0 then NaN else if 0 < x then Infinity else NegInfinity)
         else to_double (x / of_nat n))"

text \<open>\<^verbatim>\<open>item.intensity || 0\<close>: a missing score and a score of 0 both give 0.\<close>

definition or_zero :: "rat option \<Rightarrow> rat" where
  "or_zero v = (case v of None \<Rightarrow> 0 | Some x \<Rightarrow> if x = 0 then 0 else x)"

text \<open>
  The expression of each average card (App.jsx, lines 333, 340 and 347):
  \<^verbatim>\<open>filteredData.reduce((acc, item) => acc + (item.intensity || 0), 0) / filteredData.length\<close>.
\<close>

definition average :: "(item \<Rightarrow> rat option) \<Rightarrow> item list \<Rightarrow> number" where
  "average fld xs =
     js_divide (foldl (\<lambda>acc it. js_add acc (Finite (or_zero (fld it)))) (Finite 0) xs) (length xs)"

text \<open>
  \<^verbatim>\<open>toFixed(1)\<close>, which renders the average: a value that is not finite by its name, a
  finite value below \<open>10^21\<close> in magnitude with one digit after the point (the nearest
  tenth of the magnitude of its exact value, the larger of two equally near ones), and
  a larger value, which as a double is an integer, by Number::toString.
\<close>

definition toFixed1 :: "number \<Rightarrow> string" where
  "toFixed1 v =
    (case v of
       NaN \<Rightarrow> ''NaN''
     | Infinity \<Rightarrow> ''Infinity''
     | NegInfinity \<Rightarrow> ''-Infinity''
     | Finite x \<Rightarrow>
         if 10 ^ 21 \<le> \<bar>x\<bar> then number_to_string \<lfloor>x\<rfloor>
         else (let n = nat \<lfloor>\<bar>x\<bar> * 10 + 1 / 2\<rfloor>
               in (if x < 0 then ''-'' else []) @ digits (n div 10) @ ''.'' @ [digit_char n]))"

section \<open>Facet option lists\<close>

text \<open>
  \<^verbatim>\<open>[...new Set(data.map(item => item.topic))].filter(Boolean).sort()\<close> (App.jsx, lines
  124-133). A \<^verbatim>\<open>Set\<close> keeps the first occurrence of each value, in order;
  \<^verbatim>\<open>filter(Boolean)\<close> drops the missing and the empty values; \<^verbatim>\<open>sort()\<close> without a
  comparator is a stable sort by the order of strings, code unit by code unit.
\<close>

fun uniq :: "'a list \<Rightarrow> 'a list" where
  "uniq [] = []"
| "uniq (x # xs) = x # filter (\<lambda>y. y \<noteq> x) (uniq xs)"

definition option_list :: "(item \<Rightarrow> string option) \<Rightarrow> item list \<Rightarrow> string list" where
  "option_list fld data =
     sort (List.map_filter (\<lambda>v. if truthy v then v else None) (uniq (map fld data)))"

record filter_options =
  topics :: "string list"
  sectors :: "string list"
  regions :: "string list"
  pestles :: "string list"
  sources :: "string list"
  countries :: "string list"

definition filterOptions :: "item list \<Rightarrow> filter_options" where
  "filterOptions data =
    \<lparr>topics = option_list topic data,
     sectors = option_list sector data,
     regions = option_list region data,
     pestles = option_list pestle data,
     sources = option_list source data,
     countries = option_list country data\<rparr>"

section \<open>The component\<close>

text \<open>
  What \<^verbatim>\<open>Dashboard\<close> derives from its state \<^verbatim>\<open>data\<close> and \<^verbatim>\<open>filters\<close> on each render:
  the option lists of the six selects, the four summary cards, the three aggregated
  datasets and the rows handed to the scatter chart (\<^verbatim>\<open><Scatter data={filteredData}>\<close>).
  The markup reads neither \<^verbatim>\<open>loading\<close> nor \<^verbatim>\<open>error\<close>.
\<close>

record summary =
  totalRecords :: nat
  averageIntensity :: string
  averageRelevance :: string
  averageLikelihood :: string

record rendering =
  options :: filter_options
  statistics :: summary
  charts :: aggregated
  scatter :: "item list"

definition Dashboard :: "item list \<Rightarrow> filters \<Rightarrow> rendering" where
  "Dashboard data f =
    (let shown = filteredData data f
     in \<lparr>options = filterOptions data,
         statistics = \<lparr>totalRecords = length shown,
                        averageIntensity = toFixed1 (average intensity shown),
                        averageRelevance = toFixed1 (average relevance shown),
                        averageLikelihood = toFixed1 (average likelihood shown)\<rparr>,
         charts = aggregatedData shown,
         scatter = shown\<rparr>)"

section \<open>Loading the dataset\<close>

text \<open>
  \<^verbatim>\<open>fetchData\<close> (App.jsx, lines 82-95) runs once, from an effect with no dependencies.
  \<^verbatim>\<open>fetch\<close> rejects on a network error and resolves with a response for every HTTP
  status; \<^verbatim>\<open>response.json()\<close> rejects when the body is not JSON. The route of the
  server answers 200 with the array of rows, and 400 with the JSON string
  \<^verbatim>\<open>'Error: ' + err\<close> when the query fails. A parsed body is therefore an array of
  rows or some other JSON value, kept here as its text.
\<close>

datatype payload = Rows "item list" | Other string

datatype body = Json payload | NotJson

datatype outcome = NetworkError | Response nat body

record state =
  data :: payload
  loading :: bool
  error :: "string option"

definition initial :: state where
  "initial = \<lparr>data = Rows [], loading = True, error = None\<rparr>"

definition fetchData :: "outcome \<Rightarrow> state \<Rightarrow> state" where
  "fetchData result s =
    (let s1 = s\<lparr>loading := True\<rparr>;
         failed = s1\<lparr>error := Some ''Failed to fetch data. Please try again later.''\<rparr>
     in (case result of
           NetworkError \<Rightarrow> failed\<lparr>loading := False\<rparr>
         | Response status b \<Rightarrow>
             (case b of
                NotJson \<Rightarrow> failed\<lparr>loading := False\<rparr>
              | Json jsonData \<Rightarrow> s1\<lparr>data := jsonData, error := None, loading := False\<rparr>)))"

section \<open>The aggregations in the words of the specification\<close>

text \<open>
  The keys a distribution counts: the values of the field, row by row, where it is
  present and not empty.
\<close>

definition group_keys :: "(item \<Rightarrow> string option) \<Rightarrow> item list \<Rightarrow> string list" where
  "group_keys fld xs = List.map_filter (\<lambda>it. if truthy (fld it) then fld it else None) xs"

text \<open>One entry per distinct key, in the order of first occurrence, with its number of occurrences.\<close>

definition tally :: "'k list \<Rightarrow> ('k \<times> cell) list" where
  "tally ks = map (\<lambda>k. (k, Count (count_list ks k))) (uniq ks)"

text \<open>
  The distribution of the specification: the groups in first-encountered order, sorted
  by descending count with a stable sort, cut to ten.
\<close>

definition ranking :: "string list \<Rightarrow> (string \<times> cell) list" where
  "ranking ks = take 10 (sort_key (\<lambda>(k, c). - int (count_list ks k)) (tally ks))"

text \<open>The position at which a key is first encountered.\<close>

definition first_seen :: "'k list \<Rightarrow> 'k \<Rightarrow> nat" where
  "first_seen ks k = length (takeWhile (\<lambda>x. x \<noteq> k) ks)"

text \<open>
  The histogram of the specification, for a rounding \<open>r\<close>: the rounded intensities of
  the rows that have one; a bucket for each distinct value, ascending, with the number
  of rows that round to it. No bucket is made for a value that no row rounds to.
\<close>

definition rounded :: "(rat \<Rightarrow> int) \<Rightarrow> item list \<Rightarrow> int list" where
  "rounded r xs = List.map_filter (\<lambda>it. map_option r (intensity it)) xs"

definition histogram :: "(rat \<Rightarrow> int) \<Rightarrow> item list \<Rightarrow> (int option \<times> cell) list" where
  "histogram r xs =
     map (\<lambda>n. (Some n, Count (count_list (rounded r xs) n))) (sort (remdups (rounded r xs)))"

text \<open>Rounding to the nearest integer with ties away from zero, as the specification words it.\<close>

definition round_half_away :: "rat \<Rightarrow> int" where
  "round_half_away x = (if 0 \<le> x then \<lfloor>x + 1 / 2\<rfloor> else - \<lfloor>- x + 1 / 2\<rfloor>)"

text \<open>
  Groups with equal counts stand in first-encountered order: of two entries with the
  same count, the one listed first has the key that was encountered first.
\<close>

definition ties_in_first_seen_order :: "string list \<Rightarrow> (string \<times> cell) list \<Rightarrow> bool" where
  "ties_in_first_seen_order ks out =
     sorted_wrt (\<lambda>a b. snd a = snd b \<longrightarrow> first_seen ks (fst a) < first_seen ks (fst b)) out"

text \<open>A list of entries whose counts are numbers and do not increase.\<close>

definition counts_descend :: "(string \<times> cell) list \<Rightarrow> bool" where
  "counts_descend out =
     sorted_wrt (\<lambda>a b. case (snd a, snd b) of (Count m, Count n) \<Rightarrow> n \<le> m | _ \<Rightarrow> False) out"

text \<open>
  An ordinary group key: not an array index, and not the name of a member of
  \<^verbatim>\<open>Object.prototype\<close>.
\<close>

definition ordinary :: "string \<Rightarrow> bool" where
  "ordinary k = (array_index k = None \<and> k \<notin> set inherited)"


text \<open>Rows and filter states used as concrete inputs below.\<close>

definition blank :: item where
  "blank = \<lparr>topic = None, sector = None, region = None, pestle = None, source = None,
            country = None, intensity = None, likelihood = None, relevance = None\<rparr>"

definition no_filters :: filters where
  "no_filters = \<lparr>sel_topic = [], sel_sector = [], sel_region = [], sel_pestle = [],
                 sel_source = [], sel_country = []\<rparr>"

section \<open>Number keys read back\<close>

declare digits.simps [simp del]

declare bit_length.simps [simp del]

lemma bit_length_eval:
  "bit_length 0 = 0"
  "bit_length 1 = 1"
  "bit_length (Suc 0) = 1"
  "bit_length (numeral k) = Suc (bit_length (numeral k div 2))"
  by (subst bit_length.simps, simp)+

lemma ceiling_rat_numeral:
  "\<lceil>numeral a / numeral b :: rat\<rceil> = - (- numeral a div numeral b)"
  by (metis ceiling_def divide_minus_left floor_divide_of_int_eq of_int_neg_numeral of_int_numeral)

lemma floor_rat_numeral:
  "\<lfloor>numeral a / numeral b :: rat\<rfloor> = numeral a div numeral b"
  "\<lfloor>- (numeral a / numeral b) :: rat\<rfloor> = - numeral a div numeral b"
  by (metis floor_divide_of_int_eq of_int_numeral)
     (metis divide_minus_left floor_divide_of_int_eq of_int_neg_numeral of_int_numeral)

lemma is_digit_digit_char: "is_digit (digit_char d)"
  unfolding is_digit_def digit_char_def by (rule nth_mem) simp

lemma digit_val_digit_char: "digit_val (digit_char d) = d mod 10"
proof -
  have list: "[0, 1, 2, 3, 4, 5, 6, 7, 8, 9] = [0..<10]"
    by (simp add: upt_conv_Cons)
  have "map_of (zip ''0123456789'' [0..<10]) (''0123456789'' ! (d mod 10)) = Some ([0..<10] ! (d mod 10))"
    by (rule map_of_zip_nth) simp_all
  then show ?thesis
    unfolding digit_val_def digit_char_def list by simp
qed

lemma digits_not_Nil: "digits m \<noteq> []"
  by (subst digits.simps) simp

lemma digits_all: "list_all is_digit (digits m)"
  by (induction m rule: digits.induct) (subst digits.simps, simp add: is_digit_digit_char)

lemma parse_nat_snoc: "parse_nat (s @ [c]) = 10 * parse_nat s + digit_val c"
  by (simp add: parse_nat_def)

lemma parse_nat_digits: "parse_nat (digits m) = m"
proof (induction m rule: digits.induct)
  case (1 n)
  show ?case
  proof (cases "n < 10")
    case True
    then show ?thesis
      by (subst digits.simps) (simp add: parse_nat_def digit_val_digit_char)
  next
    case False
    with 1 show ?thesis
      by (subst digits.simps) (simp add: parse_nat_snoc digit_val_digit_char)
  qed
qed

lemma takeWhile_digits: "takeWhile is_digit (digits m) = digits m"
  using digits_all [of m] by (simp add: list_all_iff)

lemma parseInt_all_digits:
  assumes "s \<noteq> []" and "list_all is_digit s"
  shows "parseInt s = Some (int (parse_nat s))"
proof -
  obtain c r where s: "s = c # r"
    using assms(1) by (cases s) auto
  with assms(2) have "c \<noteq> CHR ''-''" "c \<noteq> CHR ''+''"
    by (auto simp: is_digit_def)
  then have sign: "(case s of [] \<Rightarrow> (False, s)
                    | c # r \<Rightarrow> if c = CHR ''-'' then (True, r)
                               else if c = CHR ''+'' then (False, r) else (False, s)) = (False, s)"
    by (simp add: s)
  have run: "takeWhile is_digit s = s"
    using assms(2) by (simp add: list_all_iff)
  show ?thesis
    unfolding parseInt_def sign by (simp add: run assms(1))
qed

lemma parseInt_digits: "parseInt (digits m) = Some (int m)"
  by (simp add: parseInt_all_digits digits_not_Nil digits_all parse_nat_digits)

lemma parseInt_minus_digits: "parseInt (CHR ''-'' # digits m) = Some (- int m)"
  by (simp add: parseInt_def takeWhile_digits parse_nat_digits digits_not_Nil)

text \<open>Below \<open>10^21\<close> in magnitude, \<^verbatim>\<open>parseInt\<close> reads a number key back as the number.\<close>

lemma parseInt_number_to_string:
  "\<bar>n\<bar> < 10 ^ 21 \<Longrightarrow> parseInt (number_to_string n) = Some n"
  by (auto simp: number_to_string_def unsigned_to_string_def parseInt_digits parseInt_minus_digits nat_less_iff)

lemma number_to_string_inj:
  "\<bar>m\<bar> < 10 ^ 21 \<Longrightarrow> \<bar>n\<bar> < 10 ^ 21 \<Longrightarrow> number_to_string m = number_to_string n \<Longrightarrow> m = n"
  by (metis parseInt_number_to_string option.inject)

lemma number_to_string_head:
  "\<bar>n\<bar> < 10 ^ 21 \<Longrightarrow> \<exists>c r. number_to_string n = c # r \<and> (c = CHR ''-'' \<or> is_digit c)"
  using digits_all [of "nat n"] digits_not_Nil [of "nat n"] 
  by (cases "digits (nat n)") (auto simp: number_to_string_def unsigned_to_string_def nat_less_iff)

lemma number_to_string_not_inherited:
  "\<bar>n\<bar> < 10 ^ 21 \<Longrightarrow> number_to_string n \<notin> set inherited"
  using number_to_string_head [of n] by (auto simp: inherited_def is_digit_def)

section \<open>Counting into an object\<close>

lemma set_uniq: "set (uniq xs) = set xs"
  by (induction xs) auto

lemma distinct_uniq: "distinct (uniq xs)"
  by (induction xs) (auto simp: set_uniq)

lemma uniq_snoc: "uniq (xs @ [x]) = (if x \<in> set xs then uniq xs else uniq xs @ [x])"
proof (induction xs)
  case Nil
  show ?case by simp
next
  case (Cons y ys)
  have "filter (\<lambda>z. z \<noteq> y) (uniq ys @ [x]) = filter (\<lambda>z. z \<noteq> y) (uniq ys) @ (if x = y then [] else [x])"
    by simp
  with Cons show ?case by auto
qed

lemma count_list_snoc: "count_list (xs @ [x]) y = count_list xs y + (if x = y then 1 else 0)"
  by (induction xs) auto

lemma map_of_tally:
  "k \<in> set ks \<Longrightarrow> map_of (tally ks) k = Some (Count (count_list ks k))"
  unfolding tally_def by (simp add: map_of_map_restrict set_uniq)

lemma fst_tally: "fst ` set (tally ks) = set ks"
  unfolding tally_def by (force simp: set_uniq)

lemma bump_tally:
  assumes "k \<notin> set inherited"
  shows "bump (tally ks) k = tally (ks @ [k])"
proof (cases "k \<in> set ks")
  case True
  have proto: "k \<noteq> ''__proto__''"
    using assms by (auto simp: inherited_def)
  have "bump (tally ks) k =
        map (\<lambda>(k', v'). if k' = k then (k', Count (count_list ks k + 1)) else (k', v')) (tally ks)"
    using True proto by (auto simp: bump_def plus_one_def assign_def map_of_tally fst_tally)
  also have "\<dots> = tally (ks @ [k])"
    using True by (auto simp: tally_def uniq_snoc count_list_snoc)
  finally show ?thesis .
next
  case False
  have proto: "k \<noteq> ''__proto__''"
    using assms by (auto simp: inherited_def)
  have none: "map_of (tally ks) k = None"
    using False by (simp add: map_of_eq_None_iff fst_tally)
  have "bump (tally ks) k = tally ks @ [(k, Count 1)]"
    using False proto assms by (simp add: bump_def plus_one_def assign_def none fst_tally)
  also have "\<dots> = tally (ks @ [k])"
    using False by (auto simp: tally_def uniq_snoc count_list_snoc set_uniq)
  finally show ?thesis .
qed

lemma foldl_bump_tally:
  "\<forall>k \<in> set ks. k \<notin> set inherited \<Longrightarrow> foldl bump [] ks = tally ks"
proof (induction ks rule: rev_induct)
  case Nil
  show ?case by (simp add: tally_def)
next
  case (snoc k ks)
  then show ?case by (simp add: bump_tally)
qed

lemma count_object_foldl:
  "foldl (\<lambda>acc it. case fld it of None \<Rightarrow> acc | Some k \<Rightarrow> if k \<noteq> [] then bump acc k else acc) acc xs
     = foldl bump acc (group_keys fld xs)"
  by (induction xs arbitrary: acc)
     (auto simp: group_keys_def List.map_filter_simps truthy_def split: option.splits)

lemma count_object_tally:
  "\<forall>k \<in> set (group_keys fld xs). k \<notin> set inherited \<Longrightarrow>
     count_object fld xs = tally (group_keys fld xs)"
  unfolding count_object_def count_object_foldl by (rule foldl_bump_tally)

lemma byIntensity_object_foldl:
  "foldl (\<lambda>acc it. case intensity it of None \<Rightarrow> acc
                      | Some x \<Rightarrow> bump acc (number_to_string (math_round x))) acc xs
     = foldl bump acc (map number_to_string (rounded math_round xs))"
  by (induction xs arbitrary: acc)
     (auto simp: rounded_def List.map_filter_simps split: option.splits)

section \<open>Entries, sorting and the ranking\<close>

lemma set_entries: "set (entries acc) = set acc"
  unfolding entries_def by auto

lemma distinct_entries: "distinct acc \<Longrightarrow> distinct (entries acc)"
  unfolding entries_def by auto

lemma entries_plain:
  "\<forall>k \<in> fst ` set acc. array_index k = None \<Longrightarrow> entries acc = acc"
proof -
  assume plain: "\<forall>k \<in> fst ` set acc. array_index k = None"
  then have "filter (\<lambda>(k, v). array_index k \<noteq> None) acc = []"
    by (auto simp: filter_empty_conv)
  moreover from plain have "filter (\<lambda>(k, v). array_index k = None) acc = acc"
    by (auto simp: filter_id_conv)
  ultimately show ?thesis
    by (simp add: entries_def)
qed

lemma set_js_sort: "set (js_sort cmp xs) = set xs"
proof -
  have ins: "set (insert_by cmp x ys) = insert x (set ys)" for x ys
    by (induction ys) auto
  show ?thesis
    unfolding js_sort_def by (induction xs) (simp_all add: ins)
qed

lemma insert_by_insort_key:
  "\<forall>y \<in> set ys. (cmp x y \<le> 0) = (f x \<le> f y) \<Longrightarrow> insert_by cmp x ys = insort_key f x ys"
  by (induction ys) simp_all

lemma js_sort_sort_key:
  "\<forall>x \<in> set xs. \<forall>y \<in> set xs. (cmp x y \<le> 0) = (f x \<le> f y) \<Longrightarrow> js_sort cmp xs = sort_key f xs"
proof (induction xs)
  case Nil
  show ?case by (simp add: js_sort_def)
next
  case (Cons x xs)
  then have "js_sort cmp xs = sort_key f xs"
    by simp
  moreover have "\<forall>y \<in> set (sort_key f xs). (cmp x y \<le> 0) = (f x \<le> f y)"
    using Cons.prems by simp
  ultimately show ?case
    using insert_by_insort_key [of "sort_key f xs" cmp x f] by (simp add: js_sort_def)
qed

lemma top10_ranking:
  assumes "\<forall>k \<in> set (group_keys fld xs). array_index k = None \<and> k \<notin> set inherited"
  shows "top10 fld xs = ranking (group_keys fld xs)"
proof -
  let ?ks = "group_keys fld xs"
  have obj: "count_object fld xs = tally ?ks"
    using assms by (simp add: count_object_tally)
  have ent: "entries (tally ?ks) = tally ?ks"
    using assms by (intro entries_plain) (simp add: fst_tally)
  have "js_sort descending (tally ?ks) = sort_key (\<lambda>(k, c). - int (count_list ?ks k)) (tally ?ks)"
    by (rule js_sort_sort_key) (auto simp: tally_def descending_def)
  then show ?thesis
    by (simp add: top10_def ranking_def obj ent)
qed

lemma first_seen_Cons:
  "first_seen (x # xs) y = (if y = x then 0 else Suc (first_seen xs y))"
  by (simp add: first_seen_def)

lemma sorted_first_seen: "sorted_wrt (\<lambda>a b. first_seen ks a < first_seen ks b) (uniq ks)"
proof (induction ks)
  case Nil
  show ?case by simp
next
  case (Cons x xs)
  have "sorted_wrt (\<lambda>a b. first_seen xs a < first_seen xs b) (filter (\<lambda>y. y \<noteq> x) (uniq xs))"
    using Cons by (rule sorted_wrt_filter)
  then have "sorted_wrt (\<lambda>a b. first_seen (x # xs) a < first_seen (x # xs) b) (filter (\<lambda>y. y \<noteq> x) (uniq xs))"
    by (rule sorted_wrt_mono_rel [rotated]) (simp add: first_seen_Cons)
  then show ?case
    by (simp add: first_seen_Cons)
qed

lemma sorted_wrt_by_key:
  "(\<And>k. sorted_wrt P (filter (\<lambda>x. f x = k) ys)) \<Longrightarrow> sorted_wrt (\<lambda>a b. f a = f b \<longrightarrow> P a b) ys"
proof (induction ys)
  case Nil
  show ?case by simp
next
  case (Cons y ys)
  have "sorted_wrt P (filter (\<lambda>x. f x = k) ys)" for k
    using Cons.prems [of k] by (cases "f y = k") simp_all
  then have tail: "sorted_wrt (\<lambda>a b. f a = f b \<longrightarrow> P a b) ys"
    by (rule Cons.IH)
  have "P y b" if "b \<in> set ys" "f y = f b" for b
    using Cons.prems [of "f y"] that by auto
  with tail show ?case
    by simp
qed

lemma ranking_ties:
  "sorted_wrt (\<lambda>a b. snd a = snd b \<longrightarrow> first_seen ks (fst a) < first_seen ks (fst b)) (ranking ks)"
proof -
  let ?f = "\<lambda>(k, c). - int (count_list ks k)"
  let ?P = "\<lambda>a b. first_seen ks (fst a) < first_seen ks (fst b)"
  have "sorted_wrt ?P (tally ks)"
    unfolding tally_def by (simp add: sorted_wrt_map sorted_first_seen)
  then have "sorted_wrt ?P (filter (\<lambda>x. ?f x = k) (sort_key ?f (tally ks)))" for k
    unfolding sort_key_stable by (rule sorted_wrt_filter)
  then have "sorted_wrt (\<lambda>a b. ?f a = ?f b \<longrightarrow> ?P a b) (sort_key ?f (tally ks))"
    by (rule sorted_wrt_by_key)
  then have "sorted_wrt (\<lambda>a b. snd a = snd b \<longrightarrow> ?P a b) (sort_key ?f (tally ks))"
    by (rule sorted_wrt_mono_rel [rotated]) (auto simp: tally_def)
  then show ?thesis
    unfolding ranking_def by (rule sorted_wrt_take)
qed

lemma top10_counts_descend:
  assumes "\<forall>k \<in> set (group_keys fld xs). k \<notin> set inherited"
  shows "counts_descend (top10 fld xs)"
proof -
  let ?ks = "group_keys fld xs"
  let ?f = "\<lambda>(k, c). - int (count_list ?ks k)"
  let ?L = "entries (tally ?ks)"
  have obj: "count_object fld xs = tally ?ks"
    using assms by (rule count_object_tally)
  have "js_sort descending ?L = sort_key ?f ?L"
    by (rule js_sort_sort_key) (auto simp: set_entries tally_def descending_def)
  moreover have "sorted_wrt (\<lambda>a b. ?f a \<le> ?f b) (sort_key ?f ?L)"
    using sorted_sort_key [of ?f ?L] by (simp add: sorted_map)
  then have "sorted_wrt (\<lambda>a b. case (snd a, snd b) of (Count m, Count n) \<Rightarrow> n \<le> m | _ \<Rightarrow> False)
               (sort_key ?f ?L)"
    by (rule sorted_wrt_mono_rel [rotated]) (auto simp: set_entries tally_def)
  ultimately show ?thesis
    unfolding counts_descend_def top10_def obj by (simp add: sorted_wrt_take)
qed

lemma length_top10: "length (top10 fld xs) \<le> 10"
  by (simp add: top10_def)

section \<open>The histogram\<close>

lemma count_list_map_inj:
  "inj_on f (set xs) \<Longrightarrow> x \<in> set xs \<Longrightarrow> count_list (map f xs) (f x) = count_list xs x"
proof (induction xs)
  case Nil
  then show ?case by simp
next
  case (Cons y ys)
  show ?case
  proof (cases "x \<in> set ys")
    case True
    with Cons show ?thesis
      by (auto simp: inj_on_def)
  next
    case False
    with Cons.prems have "x = y" "f x \<notin> f ` set ys"
      by (auto simp: inj_on_def)
    with False show ?thesis
      by (simp add: count_list_0_iff)
  qed
qed

lemma distinct_tally: "distinct (tally ks)"
  unfolding tally_def by (simp add: distinct_map distinct_uniq inj_on_def)

lemma byIntensity_histogram:
  assumes small: "\<forall>n \<in> set (rounded math_round xs). \<bar>n\<bar> < 10 ^ 21"
  shows "js_sort ascending (map (\<lambda>(k, count). (parseInt k, count)) (entries (byIntensity_object xs)))
           = histogram math_round xs"
proof -
  let ?rs = "rounded math_round xs"
  let ?ks = "map number_to_string ?rs"
  let ?g = "\<lambda>n. (Some n, Count (count_list ?rs n))"
  let ?h = "\<lambda>(k, count). (parseInt k, count :: cell)"
  let ?key = "\<lambda>e :: int option \<times> cell. case fst e of None \<Rightarrow> 0 | Some n \<Rightarrow> n"
  let ?L = "map ?h (entries (tally ?ks))"
  have inj: "inj_on number_to_string (set ?rs)"
    using small number_to_string_inj unfolding inj_on_def by blast
  have obj: "byIntensity_object xs = tally ?ks"
    unfolding byIntensity_object_def byIntensity_object_foldl
    using small by (intro foldl_bump_tally) (auto simp: number_to_string_not_inherited)
  have elem: "?h (number_to_string n, Count (count_list ?ks (number_to_string n))) = ?g n"
    if "n \<in> set ?rs" for n
    using that small inj by (simp add: parseInt_number_to_string count_list_map_inj)
  have tally_set: "set (tally ?ks) = (\<lambda>n. (number_to_string n, Count (count_list ?ks (number_to_string n)))) ` set ?rs"
    unfolding tally_def by (auto simp: set_uniq)
  have set_L: "set ?L = ?g ` set ?rs"
    unfolding set_map set_entries tally_set image_image using elem by (intro image_cong) auto
  have key_g: "?key (?g n) = n" for n
    by simp
  have inj_key: "inj_on ?key (?g ` set ?rs)"
    by (rule inj_onI) auto
  have "distinct (map (?h) (entries (tally ?ks)))"
  proof (subst distinct_map, intro conjI)
    show "distinct (entries (tally ?ks))"
      by (simp add: distinct_entries distinct_tally)
    show "inj_on ?h (set (entries (tally ?ks)))"
      unfolding set_entries tally_set
    proof (rule inj_onI)
      fix a b
      assume a: "a \<in> (\<lambda>n. (number_to_string n, Count (count_list ?ks (number_to_string n)))) ` set ?rs"
        and b: "b \<in> (\<lambda>n. (number_to_string n, Count (count_list ?ks (number_to_string n)))) ` set ?rs"
        and eq: "?h a = ?h b"
      from a obtain m where m: "m \<in> set ?rs" "a = (number_to_string m, Count (count_list ?ks (number_to_string m)))"
        by auto
      from b obtain n where n: "n \<in> set ?rs" "b = (number_to_string n, Count (count_list ?ks (number_to_string n)))"
        by auto
      from eq m n elem [of m] elem [of n] have "m = n"
        by simp
      with m n show "a = b" by simp
    qed
  qed
  then have dist_L: "distinct ?L" .
  have sort: "js_sort ascending ?L = sort_key ?key ?L"
  proof (rule js_sort_sort_key, intro ballI)
    fix a b
    assume "a \<in> set ?L" "b \<in> set ?L"
    then obtain m n where "a = ?g m" "b = ?g n"
      unfolding set_L by auto
    then show "(ascending a b \<le> 0) = (?key a \<le> ?key b)"
      by (simp add: ascending_def)
  qed
  have set_F: "set (sort_key ?key ?L) = ?g ` set ?rs"
    using set_L by (simp only: set_sort)
  have set_H: "set (histogram math_round xs) = ?g ` set ?rs"
    by (simp add: histogram_def)
  have "sort_key ?key ?L = histogram math_round xs"
  proof (rule map_sorted_distinct_set_unique [where f = ?key])
    show "inj_on ?key (set (sort_key ?key ?L) \<union> set (histogram math_round xs))"
      unfolding set_F set_H Un_absorb by (rule inj_key)
    show "sorted (map ?key (sort_key ?key ?L))"
      by (rule sorted_sort_key)
    have "distinct (sort_key ?key ?L)"
      using dist_L by (simp only: distinct_sort)
    then show "distinct (map ?key (sort_key ?key ?L))"
      unfolding distinct_map set_F using inj_key by blast
    show "sorted (map ?key (histogram math_round xs))"
      by (simp add: histogram_def comp_def)
    show "distinct (map ?key (histogram math_round xs))"
      by (simp add: histogram_def comp_def)
    show "set (sort_key ?key ?L) = set (histogram math_round xs)"
      unfolding set_F set_H ..
  qed
  with sort show ?thesis
    by (simp add: obj)
qed

text \<open>
  \<^verbatim>\<open>Math.round\<close> picks the integer within one half of its argument, the upper one on a
  tie; on a non-negative argument that is rounding with ties away from zero.
\<close>

lemma math_round_nearest: "of_int (math_round x) - 1 / 2 \<le> x \<and> x < of_int (math_round x) + 1 / 2"
  unfolding math_round_def by linarith

lemma math_round_nonneg: "0 \<le> x \<Longrightarrow> math_round x = round_half_away x"
  by (simp add: math_round_def round_half_away_def)

lemma histogram_keys_ascend: "sorted_wrt (<) (map (\<lambda>e. the (fst e)) (histogram r xs))"
  by (simp add: histogram_def comp_def strict_sorted_iff)

lemma histogram_counts_sum:
  "sum_list (map (\<lambda>e. case snd e of Count c \<Rightarrow> c | Text \<Rightarrow> 0) (histogram r xs)) = length (rounded r xs)"
proof -
  have "sum_list (map (count_list (rounded r xs)) (sort (remdups (rounded r xs))))
          = sum (count_list (rounded r xs)) (set (sort (remdups (rounded r xs))))"
    by (rule sum_list_distinct_conv_sum_set) simp
  also have "\<dots> = length (rounded r xs)"
    by (simp add: sum_count_set)
  finally show ?thesis
    by (simp add: histogram_def comp_def)
qed

lemma length_rounded: "length (rounded r xs) = length (filter (\<lambda>it. intensity it \<noteq> None) xs)"
  by (induction xs) (auto simp: rounded_def List.map_filter_simps split: option.splits)


section \<open>Option lists, averages and loading\<close>

lemma set_map_filter_Some: "set (List.map_filter g xs) = {y. \<exists>x \<in> set xs. g x = Some y}"
  by (induction xs) (auto simp: List.map_filter_simps split: option.splits)

lemma option_list_spec:
  "sorted (option_list fld rows) \<and> distinct (option_list fld rows) \<and>
   set (option_list fld rows) = {s. s \<noteq> [] \<and> (\<exists>it \<in> set rows. fld it = Some s)}"
proof -
  let ?keep = "\<lambda>v. if truthy v then v else None"
  have "distinct (List.map_filter ?keep vs)" if "distinct vs" for vs :: "string option list"
    using that by (induction vs) (auto simp: List.map_filter_simps set_map_filter_Some split: option.splits if_splits)
  then have "distinct (List.map_filter ?keep (uniq (map fld rows)))"
    by (simp add: distinct_uniq)
  moreover have "set (List.map_filter ?keep (uniq (map fld rows))) = {s. s \<noteq> [] \<and> (\<exists>it \<in> set rows. fld it = Some s)}"
    by (auto simp: set_map_filter_Some set_uniq truthy_def split: if_splits option.splits)
  ultimately show ?thesis
    by (simp add: option_list_def)
qed


lemma average_Nil: "average fld [] = NaN"
  by (simp add: average_def js_divide_def)

lemma fetchData_rejected:
  "result = NetworkError \<or> result = Response status NotJson \<Longrightarrow>
   fetchData result s = s\<lparr>loading := False, error := Some ''Failed to fetch data. Please try again later.''\<rparr>"
  by (auto simp: fetchData_def)


text \<open>The definitions that the simplifier unfolds to run the double arithmetic and the
  aggregation on a concrete input.\<close>

lemmas double = to_double_def binary_exponent_def pow2_def nearest_even_def bit_length_eval
  ceiling_rat_numeral floor_rat_numeral Let_def

lemmas run = aggregatedData_def Let_def top10_def count_object_def byIntensity_object_def bump_def
  plus_one_def assign_def inherited_def entries_def array_index_def is_digit_def parse_nat_def
  digit_val_def js_sort_def descending_def ascending_def number_to_string_def
  unsigned_to_string_def digits.simps digit_char_def math_round_def floor_rat_numeral
  parseInt_def blank_def exponent_form_def shortest_def nearest_with_def same_double_def
  double

section \<open>Properties of the filter\<close>

lemma filteredData_filter: "filteredData rows f = filter (matches f) rows"
  by (cases rows) (simp_all add: filteredData_def)

text \<open>
  Claim C1. A row matches a filter state exactly when, for each of the six facets, the
  selected value is the empty string or the row's field is present and equal to it.
  A row whose field is absent never matches an active selection for that facet.
\<close>

theorem matches_iff:
  "matches f it \<longleftrightarrow>
     (sel_topic f = [] \<or> topic it = Some (sel_topic f)) \<and>
     (sel_sector f = [] \<or> sector it = Some (sel_sector f)) \<and>
     (sel_region f = [] \<or> region it = Some (sel_region f)) \<and>
     (sel_pestle f = [] \<or> pestle it = Some (sel_pestle f)) \<and>
     (sel_source f = [] \<or> source it = Some (sel_source f)) \<and>
     (sel_country f = [] \<or> country it = Some (sel_country f))"
proof -
  have facet: "(\<not> truthy (Some s) \<or> (truthy v \<and> v = Some s)) \<longleftrightarrow> (s = [] \<or> v = Some s)"
    for s v
    by (cases v) (auto simp: truthy_def)
  show ?thesis
    unfolding matches_def Let_def facet ..
qed

theorem matches_iff_witness:
  "matches (no_filters\<lparr>sel_region := ''Asia''\<rparr>) (blank\<lparr>region := Some ''Asia''\<rparr>) \<and>
   \<not> matches (no_filters\<lparr>sel_region := ''Asia''\<rparr>) (blank\<lparr>region := Some ''asia''\<rparr>) \<and>
   \<not> matches (no_filters\<lparr>sel_region := ''Asia''\<rparr>) blank"
  using matches_iff [of "no_filters\<lparr>sel_region := ''Asia''\<rparr>" "blank\<lparr>region := Some ''Asia''\<rparr>"]
        matches_iff [of "no_filters\<lparr>sel_region := ''Asia''\<rparr>" "blank\<lparr>region := Some ''asia''\<rparr>"]
        matches_iff [of "no_filters\<lparr>sel_region := ''Asia''\<rparr>" blank]
  by (simp add: no_filters_def blank_def)

text \<open>
  Claim C9. Filtering is idempotent: filtering the filtered subset again with the same
  filter state gives the same subset.
\<close>

theorem filteredData_idempotent:
  "filteredData (filteredData rows f) f = filteredData rows f"
  by (simp add: filteredData_filter)

theorem filteredData_idempotent_witness:
  "filteredData (filteredData [blank\<lparr>region := Some ''Asia''\<rparr>, blank] (no_filters\<lparr>sel_region := ''Asia''\<rparr>))
       (no_filters\<lparr>sel_region := ''Asia''\<rparr>) = [blank\<lparr>region := Some ''Asia''\<rparr>]"
  using filteredData_idempotent [of "[blank\<lparr>region := Some ''Asia''\<rparr>, blank]" "no_filters\<lparr>sel_region := ''Asia''\<rparr>"]
  by (simp add: filteredData_def matches_def truthy_def no_filters_def blank_def)

text \<open>
  Claim C10. The filtered subset is a subsequence of the raw dataset: its rows occur in
  the dataset, in the dataset's order, and no row occurs more often than there. The
  scatter chart receives the filtered subset as it is.
\<close>

theorem filteredData_subseq:
  "subseq (filteredData rows f) rows \<and>
   set (filteredData rows f) \<subseteq> set rows \<and>
   count_list (filteredData rows f) r \<le> count_list rows r \<and>
   scatter (Dashboard rows f) = filteredData rows f"
proof -
  have "count_list (filter P xs) r \<le> count_list xs r" for P and xs :: "item list"
    by (induction xs) simp_all
  then show ?thesis
    by (simp add: filteredData_filter Dashboard_def Let_def)
qed

theorem filteredData_subseq_witness:
  "scatter (Dashboard [blank\<lparr>region := Some ''Asia'', intensity := Some 2\<rparr>, blank,
                       blank\<lparr>region := Some ''Asia''\<rparr>] (no_filters\<lparr>sel_region := ''Asia''\<rparr>))
     = [blank\<lparr>region := Some ''Asia'', intensity := Some 2\<rparr>, blank\<lparr>region := Some ''Asia''\<rparr>] \<and>
   subseq [blank\<lparr>region := Some ''Asia'', intensity := Some 2\<rparr>, blank\<lparr>region := Some ''Asia''\<rparr>]
     [blank\<lparr>region := Some ''Asia'', intensity := Some 2\<rparr>, blank, blank\<lparr>region := Some ''Asia''\<rparr>]"
proof -
  let ?rows = "[blank\<lparr>region := Some ''Asia'', intensity := Some 2\<rparr>, blank, blank\<lparr>region := Some ''Asia''\<rparr>]"
  let ?f = "no_filters\<lparr>sel_region := ''Asia''\<rparr>"
  have shown: "filteredData ?rows ?f
                 = [blank\<lparr>region := Some ''Asia'', intensity := Some 2\<rparr>, blank\<lparr>region := Some ''Asia''\<rparr>]"
    by (simp add: filteredData_def matches_def truthy_def no_filters_def blank_def)
  from filteredData_subseq [of ?rows ?f] show ?thesis
    unfolding shown by blast
qed

section \<open>Properties of the aggregation\<close>

text \<open>
  Claim C2, as stated (ties away from zero), fails: a row of intensity \<open>-2.5\<close> is counted
  in the bucket \<open>-2\<close>, where rounding away from zero gives \<open>-3\<close>.
\<close>

theorem byIntensity_ties_away_counterexample:
  "byIntensity (aggregatedData [blank\<lparr>intensity := Some (- 5 / 2)\<rparr>])
     \<noteq> histogram round_half_away [blank\<lparr>intensity := Some (- 5 / 2)\<rparr>]"
proof -
  have "byIntensity (aggregatedData [blank\<lparr>intensity := Some (- 5 / 2)\<rparr>]) = [(Some (- 2), Count 1)]"
    by (simp add: run)
  moreover have "histogram round_half_away [blank\<lparr>intensity := Some (- 5 / 2)\<rparr>] = [(Some (- 3), Count 1)]"
    by (simp add: histogram_def rounded_def round_half_away_def List.map_filter_simps blank_def
        floor_rat_numeral)
  ultimately show ?thesis
    by simp
qed

text \<open>
  Claim C2, amended. With the rounding of \<^verbatim>\<open>Math.round\<close> (nearest integer, ties towards
  positive infinity), and for rounded intensities below \<open>10^21\<close> in magnitude,
  \<open>byIntensity\<close> is the histogram of the rows that have an intensity: one bucket per
  rounded value that occurs, with the number of rows that round to it, in ascending
  order of the bucket value.
\<close>

theorem byIntensity_histogram_half_up:
  "\<forall>n \<in> set (rounded math_round xs). \<bar>n\<bar> < 10 ^ 21 \<Longrightarrow>
     byIntensity (aggregatedData xs) = histogram math_round xs"
  by (simp add: aggregatedData_def Let_def byIntensity_histogram)

theorem byIntensity_histogram_half_up_witness:
  "byIntensity (aggregatedData
      [blank\<lparr>intensity := Some 3\<rparr>, blank\<lparr>intensity := Some (- 5 / 2)\<rparr>, blank,
       blank\<lparr>intensity := Some (13 / 4)\<rparr>, blank\<lparr>intensity := Some 1\<rparr>])
   = [(Some (- 2), Count 1), (Some 1, Count 1), (Some 3, Count 2)]"
proof -
  let ?xs = "[blank\<lparr>intensity := Some 3\<rparr>, blank\<lparr>intensity := Some (- 5 / 2)\<rparr>, blank,
       blank\<lparr>intensity := Some (13 / 4)\<rparr>, blank\<lparr>intensity := Some 1\<rparr>]"
  have rs: "rounded math_round ?xs = [3, - 2, 3, 1]"
    by (simp add: rounded_def List.map_filter_simps blank_def math_round_def floor_rat_numeral)
  have small: "\<forall>n \<in> set (rounded math_round ?xs). \<bar>n\<bar> < 10 ^ 21"
    unfolding rs by simp
  have "histogram math_round ?xs = [(Some (- 2), Count 1), (Some 1, Count 1), (Some 3, Count 2)]"
    unfolding histogram_def rs by simp
  with byIntensity_histogram_half_up [OF small] show ?thesis
    by simp
qed

text \<open>
  Claim C6 at a failing input: rows of intensity 1 and \<open>10^21\<close>. The second is counted
  under the key \<^verbatim>\<open>"1e+21"\<close>, which \<^verbatim>\<open>parseInt\<close> reads as 1, so the output has the key 1
  twice and is not strictly ascending.
\<close>

theorem byIntensity_exponent_key:
  "byIntensity (aggregatedData [blank\<lparr>intensity := Some 1\<rparr>, blank\<lparr>intensity := Some (10 ^ 21)\<rparr>])
     = [(Some 1, Count 1), (Some 1, Count 1)]"
  by (simp add: run)

text \<open>
  Below \<open>10^21\<close> the keys of \<open>byIntensity\<close> are strictly ascending and its counts add
  up to the number of rows that have an intensity.
\<close>

lemma byIntensity_strict_sum:
  assumes "\<forall>n \<in> set (rounded math_round xs). \<bar>n\<bar> < 10 ^ 21"
  shows "sorted_wrt (<) (map (\<lambda>e. the (fst e)) (byIntensity (aggregatedData xs)))"
    and "sum_list (map (\<lambda>e. case snd e of Count c \<Rightarrow> c | Text \<Rightarrow> 0) (byIntensity (aggregatedData xs)))
           = length (filter (\<lambda>it. intensity it \<noteq> None) xs)"
  using assms
  by (simp_all add: aggregatedData_def Let_def byIntensity_histogram histogram_keys_ascend
      histogram_counts_sum length_rounded)

text \<open>
  Claim C5 at a failing input: one row of region \<^verbatim>\<open>"constructor"\<close> and two of region
  \<^verbatim>\<open>"Asia"\<close>. The entry of the first group holds a string instead of the count 1 and
  stays ahead of the group of two rows.
\<close>

theorem byRegion_inherited_key:
  "byRegion (aggregatedData
      [blank\<lparr>region := Some ''constructor''\<rparr>, blank\<lparr>region := Some ''Asia''\<rparr>,
       blank\<lparr>region := Some ''Asia''\<rparr>])
     = [(''constructor'', Text), (''Asia'', Count 2)] \<and>
   \<not> counts_descend [(''constructor'', Text), (''Asia'', Count 2)]"
  by (simp add: run counts_descend_def)

text \<open>
  For group keys that name no member of \<^verbatim>\<open>Object.prototype\<close>, \<open>byRegion\<close> and
  \<open>byTopic\<close> have at most ten entries with counts that do not increase; and on an
  empty subset each is its placeholder.
\<close>

lemma distribution_bounded_descending:
  assumes "\<forall>k \<in> set (group_keys region xs). k \<notin> set inherited"
    and "\<forall>k \<in> set (group_keys topic xs). k \<notin> set inherited"
  shows "length (byRegion (aggregatedData xs)) \<le> 10 \<and> counts_descend (byRegion (aggregatedData xs)) \<and>
         length (byTopic (aggregatedData xs)) \<le> 10 \<and> counts_descend (byTopic (aggregatedData xs))"
  using top10_counts_descend [OF assms(1)] top10_counts_descend [OF assms(2)]
        length_top10 [of region xs] length_top10 [of topic xs]
  by (simp add: aggregatedData_def Let_def counts_descend_def)

lemma distribution_placeholder:
  "byRegion (aggregatedData []) = [(''No Data'', Count 0)] \<and>
   byTopic (aggregatedData []) = [(''No Data'', Count 0)]"
  by (simp add: aggregatedData_def top10_def count_object_def entries_def js_sort_def)

text \<open>
  Claim C7, as stated, fails: with the regions \<^verbatim>\<open>"2"\<close> and then \<^verbatim>\<open>"1"\<close>, one row each,
  \<^verbatim>\<open>Object.entries\<close> lists the key \<^verbatim>\<open>"1"\<close> first, and the tie stays in that order.
\<close>

theorem byRegion_index_keys_counterexample:
  "\<not> ties_in_first_seen_order
       (group_keys region [blank\<lparr>region := Some ''2''\<rparr>, blank\<lparr>region := Some ''1''\<rparr>])
       (byRegion (aggregatedData [blank\<lparr>region := Some ''2''\<rparr>, blank\<lparr>region := Some ''1''\<rparr>]))"
proof -
  have "byRegion (aggregatedData [blank\<lparr>region := Some ''2''\<rparr>, blank\<lparr>region := Some ''1''\<rparr>])
          = [(''1'', Count 1), (''2'', Count 1)]"
    by (simp add: run)
  moreover have "group_keys region [blank\<lparr>region := Some ''2''\<rparr>, blank\<lparr>region := Some ''1''\<rparr>] = [''2'', ''1'']"
    by (simp add: group_keys_def List.map_filter_simps truthy_def blank_def)
  ultimately show ?thesis
    by (simp add: ties_in_first_seen_order_def first_seen_def)
qed

text \<open>
  Claim C7, amended. For ordinary group keys (no array index, no member name of
  \<^verbatim>\<open>Object.prototype\<close>), \<open>byRegion\<close> and \<open>byTopic\<close> are the groups in first-encountered
  order, sorted by descending count with a stable sort and cut to ten (or the
  placeholder when there is no group); groups with equal counts stand in
  first-encountered order.
\<close>

theorem distribution_ties_first_seen:
  "((\<forall>k \<in> set (group_keys region xs). ordinary k) \<longrightarrow>
      byRegion (aggregatedData xs) =
        (if group_keys region xs = [] then [(''No Data'', Count 0)] else ranking (group_keys region xs)) \<and>
      ties_in_first_seen_order (group_keys region xs) (byRegion (aggregatedData xs))) \<and>
   ((\<forall>k \<in> set (group_keys topic xs). ordinary k) \<longrightarrow>
      byTopic (aggregatedData xs) =
        (if group_keys topic xs = [] then [(''No Data'', Count 0)] else ranking (group_keys topic xs)) \<and>
      ties_in_first_seen_order (group_keys topic xs) (byTopic (aggregatedData xs)))"
proof -
  have one: "(if length (top10 fld xs) \<noteq> 0 then top10 fld xs else [(''No Data'', Count 0)]) =
               (if group_keys fld xs = [] then [(''No Data'', Count 0)] else ranking (group_keys fld xs)) \<and>
             ties_in_first_seen_order (group_keys fld xs)
               (if length (top10 fld xs) \<noteq> 0 then top10 fld xs else [(''No Data'', Count 0)])"
    if ord: "\<forall>k \<in> set (group_keys fld xs). ordinary k" for fld
  proof -
    have top: "top10 fld xs = ranking (group_keys fld xs)"
      using ord by (intro top10_ranking) (simp add: ordinary_def)
    have empty: "ranking ks = [] \<longleftrightarrow> ks = []" for ks
      by (cases ks) (simp_all add: ranking_def tally_def)
    show ?thesis
      using ranking_ties [of "group_keys fld xs"]
      by (simp add: top empty ties_in_first_seen_order_def)
  qed
  have r: "byRegion (aggregatedData xs) =
             (if length (top10 region xs) \<noteq> 0 then top10 region xs else [(''No Data'', Count 0)])"
    and t: "byTopic (aggregatedData xs) =
             (if length (top10 topic xs) \<noteq> 0 then top10 topic xs else [(''No Data'', Count 0)])"
    by (simp_all add: aggregatedData_def Let_def)
  show ?thesis
    unfolding r t using one [of region] one [of topic] by blast
qed

theorem distribution_ties_first_seen_witness:
  "byRegion (aggregatedData
      [blank\<lparr>region := Some ''Asia'', topic := Some ''oil''\<rparr>,
       blank\<lparr>region := Some ''Africa'', topic := Some ''gas''\<rparr>,
       blank\<lparr>region := Some ''World''\<rparr>,
       blank\<lparr>region := Some ''Africa'', topic := Some ''''\<rparr>])
     = ranking [''Asia'', ''Africa'', ''World'', ''Africa''] \<and>
   ranking [''Asia'', ''Africa'', ''World'', ''Africa'']
     = [(''Africa'', Count 2), (''Asia'', Count 1), (''World'', Count 1)] \<and>
   byTopic (aggregatedData
      [blank\<lparr>region := Some ''Asia'', topic := Some ''oil''\<rparr>,
       blank\<lparr>region := Some ''Africa'', topic := Some ''gas''\<rparr>,
       blank\<lparr>region := Some ''World''\<rparr>,
       blank\<lparr>region := Some ''Africa'', topic := Some ''''\<rparr>])
     = ranking [''oil'', ''gas''] \<and>
   ranking [''oil'', ''gas''] = [(''oil'', Count 1), (''gas'', Count 1)]"
proof -
  let ?xs = "[blank\<lparr>region := Some ''Asia'', topic := Some ''oil''\<rparr>,
       blank\<lparr>region := Some ''Africa'', topic := Some ''gas''\<rparr>,
       blank\<lparr>region := Some ''World''\<rparr>,
       blank\<lparr>region := Some ''Africa'', topic := Some ''''\<rparr>]"
  have ks: "group_keys region ?xs = [''Asia'', ''Africa'', ''World'', ''Africa'']"
    and ts: "group_keys topic ?xs = [''oil'', ''gas'']"
    by (simp_all add: group_keys_def List.map_filter_simps truthy_def blank_def)
  have ord: "\<forall>k \<in> set (group_keys region ?xs). ordinary k"
    "\<forall>k \<in> set (group_keys topic ?xs). ordinary k"
    unfolding ks ts by (simp_all add: ordinary_def array_index_def is_digit_def inherited_def)
  have "ranking [''Asia'', ''Africa'', ''World'', ''Africa'']
          = [(''Africa'', Count 2), (''Asia'', Count 1), (''World'', Count 1)]"
    and "ranking [''oil'', ''gas''] = [(''oil'', Count 1), (''gas'', Count 1)]"
    by (simp_all add: ranking_def tally_def)
  with distribution_ties_first_seen [of ?xs] ord ks ts show ?thesis
    by simp
qed

section \<open>Properties of the statistics, the option lists and loading\<close>



text \<open>
  Claim C8. Each of the six option lists is ascending and without duplicates, and holds
  exactly the non-empty values of its field in the raw dataset; the filter state plays
  no part in it.
\<close>

theorem filterOptions_sorted_distinct:
  "(let opts = options (Dashboard rows f)
    in opts = filterOptions rows \<and>
       sorted (topics opts) \<and> distinct (topics opts) \<and>
       set (topics opts) = {s. s \<noteq> [] \<and> (\<exists>it \<in> set rows. topic it = Some s)} \<and>
       sorted (sectors opts) \<and> distinct (sectors opts) \<and>
       set (sectors opts) = {s. s \<noteq> [] \<and> (\<exists>it \<in> set rows. sector it = Some s)} \<and>
       sorted (regions opts) \<and> distinct (regions opts) \<and>
       set (regions opts) = {s. s \<noteq> [] \<and> (\<exists>it \<in> set rows. region it = Some s)} \<and>
       sorted (pestles opts) \<and> distinct (pestles opts) \<and>
       set (pestles opts) = {s. s \<noteq> [] \<and> (\<exists>it \<in> set rows. pestle it = Some s)} \<and>
       sorted (sources opts) \<and> distinct (sources opts) \<and>
       set (sources opts) = {s. s \<noteq> [] \<and> (\<exists>it \<in> set rows. source it = Some s)} \<and>
       sorted (countries opts) \<and> distinct (countries opts) \<and>
       set (countries opts) = {s. s \<noteq> [] \<and> (\<exists>it \<in> set rows. country it = Some s)})"
  using option_list_spec [of topic rows] option_list_spec [of sector rows]
        option_list_spec [of region rows] option_list_spec [of pestle rows]
        option_list_spec [of source rows] option_list_spec [of country rows]
  by (simp add: Let_def Dashboard_def filterOptions_def)

theorem filterOptions_sorted_distinct_witness:
  "regions (options (Dashboard
      [blank\<lparr>region := Some ''World''\<rparr>, blank\<lparr>region := Some ''Asia''\<rparr>, blank\<lparr>region := Some ''''\<rparr>,
       blank, blank\<lparr>region := Some ''World''\<rparr>, blank\<lparr>region := Some ''Africa''\<rparr>]
      (no_filters\<lparr>sel_region := ''Asia''\<rparr>)))
     = [''Africa'', ''Asia'', ''World'']"
  using filterOptions_sorted_distinct
    [of "[blank\<lparr>region := Some ''World''\<rparr>, blank\<lparr>region := Some ''Asia''\<rparr>, blank\<lparr>region := Some ''''\<rparr>,
          blank, blank\<lparr>region := Some ''World''\<rparr>, blank\<lparr>region := Some ''Africa''\<rparr>]"
        "no_filters\<lparr>sel_region := ''Asia''\<rparr>"]
  by (simp add: Let_def Dashboard_def filterOptions_def option_list_def List.map_filter_simps
      truthy_def blank_def)

text \<open>
  Claim C3 at a failing input: the server answers 400 with the JSON string of an error.
  \<^verbatim>\<open>fetch\<close> resolves, the body parses, and the string replaces the dataset; no error
  message is set.
\<close>

theorem fetchData_error_status:
  "fetchData (Response 400 (Json (Other ''Error: connection lost''))) initial
     = \<lparr>data = Other ''Error: connection lost'', loading = False, error = None\<rparr>"
  by (simp add: fetchData_def initial_def)

end
